theory Spec2Isabelle
  imports Main "HOL-Library.Multiset" "HOL-Library.Sublist"
begin

section \<open>Data model\<close>

text \<open>
  The pull-request module of the changelog builder (\<^verbatim>\<open>src/src/main.ts\<close>, the part
  after the entry point: class \<^verbatim>\<open>PullRequests\<close> and \<^verbatim>\<open>sortPullRequests\<close>).

  A \<^verbatim>\<open>moment.Moment\<close> is either a valid instant, held as its epoch milliseconds, or the
  invalid moment that \<^verbatim>\<open>moment(null)\<close> builds. \<^verbatim>\<open>isBefore\<close> and \<^verbatim>\<open>isAfter\<close> compare
  the milliseconds and are false as soon as one side is invalid.
\<close>

datatype moment = Moment int | Invalid

fun isBefore :: "moment \<Rightarrow> moment \<Rightarrow> bool" where
  "isBefore (Moment a) (Moment b) = (a < b)"
| "isBefore _ _ = False"

fun isAfter :: "moment \<Rightarrow> moment \<Rightarrow> bool" where
  "isAfter (Moment a) (Moment b) = (b < a)"
| "isAfter _ _ = False"

text \<open>
  \<^verbatim>\<open>moment(x)\<close> for the \<^verbatim>\<open>merged_at\<close> field of an API entry: the field is an ISO-8601
  timestamp, held here already parsed, or \<^verbatim>\<open>null\<close>.
\<close>

fun moment_of :: "int option \<Rightarrow> moment" where
  "moment_of (Some t) = Moment t"
| "moment_of None = Invalid"

text \<open>The interface \<^verbatim>\<open>PullRequestInfo\<close>, field by field.\<close>

record PullRequestInfo =
  number :: nat
  title :: string
  htmlURL :: string
  mergedAt :: moment
  author :: string
  repoName :: string
  labels :: "string list"
  body :: string

text \<open>
  One pull request as the platform's REST API delivers it, restricted to the fields the
  code reads: \<^verbatim>\<open>number\<close>, \<^verbatim>\<open>title\<close>, \<^verbatim>\<open>html_url\<close>, \<^verbatim>\<open>merged_at\<close>, \<^verbatim>\<open>user.login\<close>,
  \<^verbatim>\<open>base.repo.full_name\<close>, \<^verbatim>\<open>labels[i].name\<close> and \<^verbatim>\<open>body\<close>. Only \<^verbatim>\<open>merged_at\<close> is
  nullable here, as it is the only field the code tests before use; the others have the
  types the code relies on.
\<close>

record api_user =
  login :: string

record api_repo =
  full_name :: string

record api_base =
  repo :: api_repo

record api_label =
  name :: string

record api_pull =
  pr_number :: nat
  pr_title :: string
  html_url :: string
  merged_at :: "int option"
  user :: api_user
  base :: api_base
  pr_labels :: "api_label list"
  pr_body :: string

text \<open>
  What a call can throw: the HTTP client's request error (status and message) or a
  \<^verbatim>\<open>TypeError\<close> of the runtime. \<^verbatim>\<open>Inl\<close> of a result is a thrown error.
\<close>

datatype error = RequestError nat string | TypeError string

fun message :: "error \<Rightarrow> string" where
  "message (RequestError status msg) = msg"
| "message (TypeError msg) = msg"

text \<open>The lines written through \<^verbatim>\<open>core.info\<close> and \<^verbatim>\<open>core.warning\<close>.\<close>

datatype log_entry = Info string | Warning string

text \<open>
  The client \<^verbatim>\<open>Octokit\<close> as far as the class uses it. \<^verbatim>\<open>pulls_get\<close> answers one pull
  request or throws. \<^verbatim>\<open>pulls_list\<close> is what \<^verbatim>\<open>paginate.iterator\<close> yields for the
  closed pull requests of a repository, sorted by update time, descending: one response
  after the other, each a page of entries or a thrown error (which ends the iteration).
\<close>

record Octokit =
  pulls_get :: "string \<Rightarrow> string \<Rightarrow> nat \<Rightarrow> error + api_pull"
  pulls_list :: "string \<Rightarrow> string \<Rightarrow> (error + api_pull list) list"

section \<open>Rendering numbers in template literals\<close>

text \<open>
  A number interpolated into a template literal prints as its decimal digits. The numbers
  printed here are integers (a pull-request number, the bound \<^verbatim>\<open>maxPullRequests\<close>) of
  ordinary size; from \<open>10 ^ 21\<close> on JavaScript would switch to exponent notation.
\<close>

fun digit_char :: "nat \<Rightarrow> char" where
  "digit_char n = (''0123456789'' ! (n mod 10))"

fun show_nat :: "nat \<Rightarrow> string" where
  "show_nat n = (if n < 10 then [digit_char n] else show_nat (n div 10) @ [digit_char n])"

declare show_nat.simps [simp del]

fun show_int :: "int \<Rightarrow> string" where
  "show_int i = (if i < 0 then CHR ''-'' # show_nat (nat (- i)) else show_nat (nat i))"

section \<open>sortPullRequests\<close>

text \<open>
  \<^verbatim>\<open>Array.prototype.sort(compareFn)\<close> is a stable sort: for a consistent comparator the
  result is the one ordering in which \<^verbatim>\<open>a\<close> precedes \<^verbatim>\<open>b\<close> whenever
  \<^verbatim>\<open>compareFn(a, b) < 0\<close>, and elements that compare equal keep their order. It is modelled
  by stable insertion. (For a comparator that is not consistent the language leaves the
  order to the implementation; the comparators below are consistent on valid moments.)
\<close>

fun array_insert :: "('a \<Rightarrow> 'a \<Rightarrow> int) \<Rightarrow> 'a \<Rightarrow> 'a list \<Rightarrow> 'a list" where
  "array_insert cmp x [] = [x]"
| "array_insert cmp x (y # ys) =
     (if 0 < cmp x y then y # array_insert cmp x ys else x # y # ys)"

fun array_sort :: "('a \<Rightarrow> 'a \<Rightarrow> int) \<Rightarrow> 'a list \<Rightarrow> 'a list" where
  "array_sort cmp [] = []"
| "array_sort cmp (x # xs) = array_insert cmp x (array_sort cmp xs)"

text \<open>
  \<^verbatim>\<open>sortPullRequests\<close> sorts the array it is given in place and returns that same array;
  the model returns the sorted list. The comparator of the ascending branch is
  \<^verbatim>\<open>(a, b) => ...\<close>.
\<close>

definition compare_ascending :: "PullRequestInfo \<Rightarrow> PullRequestInfo \<Rightarrow> int" where
  "compare_ascending a b =
     (if isBefore (mergedAt a) (mergedAt b) then - 1
      else if isBefore (mergedAt b) (mergedAt a) then 1
      else 0)"

text \<open>
  The comparator of the descending branch has the same body with the parameters
  swapped, \<^verbatim>\<open>(b, a) => ...\<close>: its first argument is the body's \<^verbatim>\<open>b\<close>.
\<close>

definition compare_descending :: "PullRequestInfo \<Rightarrow> PullRequestInfo \<Rightarrow> int" where
  "compare_descending b a =
     (if isBefore (mergedAt a) (mergedAt b) then - 1
      else if isBefore (mergedAt b) (mergedAt a) then 1
      else 0)"

definition sortPullRequests :: "PullRequestInfo list \<Rightarrow> bool \<Rightarrow> PullRequestInfo list" where
  "sortPullRequests pullRequests ascending =
     (if ascending then array_sort compare_ascending pullRequests
      else array_sort compare_descending pullRequests)"

section \<open>getSingle\<close>

text \<open>
  The object literal both fetchers build from an API entry. \<^verbatim>\<open>moment(pr.merged_at)\<close> of
  an entry that was never merged is the invalid moment.
\<close>

definition toPullRequestInfo :: "api_pull \<Rightarrow> PullRequestInfo" where
  "toPullRequestInfo pr =
     \<lparr> number = pr_number pr,
       title = pr_title pr,
       htmlURL = html_url pr,
       mergedAt = moment_of (merged_at pr),
       author = login (user pr),
       repoName = full_name (repo (base pr)),
       labels = map name (pr_labels pr),
       body = pr_body pr \<rparr>"

text \<open>The body of the \<^verbatim>\<open>try\<close> block: the request may throw, the rest does not.\<close>

definition getSingle_try :: "Octokit \<Rightarrow> string \<Rightarrow> string \<Rightarrow> nat \<Rightarrow> error + PullRequestInfo" where
  "getSingle_try octokit owner repository prNumber =
     (case pulls_get octokit owner repository prNumber of
        Inl e \<Rightarrow> Inl e
      | Inr pr \<Rightarrow> Inr (toPullRequestInfo pr))"

text \<open>
  \<^verbatim>\<open>getSingle\<close> returns what its caller sees (a thrown error, or the value, where
  \<^verbatim>\<open>None\<close> is \<^verbatim>\<open>null\<close>) together with the lines it logged.
\<close>

definition getSingle ::
  "Octokit \<Rightarrow> string \<Rightarrow> string \<Rightarrow> nat \<Rightarrow> (error + PullRequestInfo option) \<times> log_entry list" where
  "getSingle octokit owner repository prNumber =
     (case getSingle_try octokit owner repository prNumber of
        Inr info \<Rightarrow> (Inr (Some info), [])
      | Inl e \<Rightarrow>
          (Inr None,
           [Warning (''Cannot find PR '' @ owner @ ''/'' @ repository @ ''#''
                     @ show_nat prNumber @ '' - '' @ message e)]))"

section \<open>getBetweenDates\<close>

text \<open>
  The \<^verbatim>\<open>for await\<close> loop over the paginator. Its state is the accumulated array
  \<^verbatim>\<open>mergedPRs\<close>; the model also counts the responses taken from the paginator and keeps
  the log. Each round appends the merged entries of the page, then reads \<^verbatim>\<open>prs[0]\<close>:
  on an empty page that is \<^verbatim>\<open>undefined\<close>, and reading \<^verbatim>\<open>merged_at\<close> of it throws.
  The outcome is the returned array or the thrown error, the number of responses
  requested, and the log.
\<close>

type_synonym fetch_outcome = "(error + PullRequestInfo list) \<times> nat \<times> log_entry list"

fun getBetweenDates_loop ::
  "moment \<Rightarrow> int \<Rightarrow> (error + api_pull list) list \<Rightarrow> PullRequestInfo list \<Rightarrow> nat
     \<Rightarrow> log_entry list \<Rightarrow> fetch_outcome" where
  "getBetweenDates_loop fromDate maxPullRequests [] mergedPRs requested lg =
     (Inr (sortPullRequests mergedPRs True), requested, lg)"
| "getBetweenDates_loop fromDate maxPullRequests (Inl e # responses) mergedPRs requested lg =
     (Inl e, Suc requested, lg)"
| "getBetweenDates_loop fromDate maxPullRequests (Inr prs # responses) mergedPRs requested lg =
     (let mergedPRs' = mergedPRs @ map toPullRequestInfo (filter (\<lambda>p. merged_at p \<noteq> None) prs)
      in case prs of
           [] \<Rightarrow>
             (Inl (TypeError ''Cannot read properties of undefined (reading 'merged_at')''),
              Suc requested, lg)
         | firstPR # _ \<Rightarrow>
             if (merged_at firstPR \<noteq> None \<and> isAfter fromDate (moment_of (merged_at firstPR)))
                \<or> maxPullRequests \<le> int (length mergedPRs')
             then
               (Inr (sortPullRequests mergedPRs' True), Suc requested,
                lg @ (if maxPullRequests \<le> int (length mergedPRs')
                      then [Info (''Reached 'maxPullRequests' count '' @ show_int maxPullRequests)]
                      else []))
             else getBetweenDates_loop fromDate maxPullRequests responses mergedPRs'
                    (Suc requested) lg)"

text \<open>\<^verbatim>\<open>toDate\<close> is a parameter the body never reads.\<close>

definition getBetweenDates ::
  "Octokit \<Rightarrow> string \<Rightarrow> string \<Rightarrow> moment \<Rightarrow> moment \<Rightarrow> int \<Rightarrow> fetch_outcome" where
  "getBetweenDates octokit owner repository fromDate toDate maxPullRequests =
     getBetweenDates_loop fromDate maxPullRequests (pulls_list octokit owner repository) [] 0 []"

definition returned :: "fetch_outcome \<Rightarrow> error + PullRequestInfo list" where
  "returned out = fst out"

definition pagesRequested :: "fetch_outcome \<Rightarrow> nat" where
  "pagesRequested out = fst (snd out)"

section \<open>filterCommits\<close>

text \<open>
  Modelled from the spec: the interface \<^verbatim>\<open>CommitInfo\<close> is declared in \<^verbatim>\<open>./commits\<close>,
  which is not among the sources. The spec gives it a sha, a summary line, an optional
  pull-request number that reconciliation assigns, and an author; \<^verbatim>\<open>filterCommits\<close>
  reads \<^verbatim>\<open>summary\<close> and writes \<^verbatim>\<open>prNumber\<close>.

  A JavaScript number holds an integer exactly up to \<open>2 ^ 53\<close>; what \<^verbatim>\<open>parseInt\<close>
  makes of a longer digit string is a rounded value that is not modelled further.
\<close>

datatype js_number = Integer nat | Rounded

record CommitInfo =
  sha :: string
  summary :: string
  prNumber :: "js_number option"
  commit_author :: string

text \<open>\<^verbatim>\<open>String.prototype.includes\<close>: the argument occurs somewhere in the string.\<close>

fun includes_str :: "string \<Rightarrow> string \<Rightarrow> bool" where
  "includes_str [] searchString = (searchString = [])"
| "includes_str (c # cs) searchString = (prefix searchString (c # cs) \<or> includes_str cs searchString)"

text \<open>
  The regular expression \<^verbatim>\<open>/Merge pull request #(\d+)/\<close>. Without flags it is
  case-sensitive and \<^verbatim>\<open>\d\<close> is an ASCII digit. \<^verbatim>\<open>prRegex_at\<close> tries the pattern at the
  start of its argument and answers the capture group, which takes as many digits as
  there are; \<^verbatim>\<open>match_prRegex\<close> is \<^verbatim>\<open>summary.match(prRegex)\<close>, which tries each
  position from the left and keeps the first success (\<^verbatim>\<open>None\<close> is \<^verbatim>\<open>null\<close>).
\<close>

definition isDigit :: "char \<Rightarrow> bool" where
  "isDigit c = (c \<in> set ''0123456789'')"

definition prRegex_literal :: string where
  "prRegex_literal = ''Merge pull request #''"

definition prRegex_at :: "string \<Rightarrow> string option" where
  "prRegex_at s =
     (if prefix prRegex_literal s
      then (let ds = takeWhile isDigit (drop (length prRegex_literal) s)
            in if ds = [] then None else Some ds)
      else None)"

fun match_prRegex :: "string \<Rightarrow> string option" where
  "match_prRegex [] = prRegex_at []"
| "match_prRegex (c # cs) =
     (case prRegex_at (c # cs) of Some ds \<Rightarrow> Some ds | None \<Rightarrow> match_prRegex cs)"

text \<open>\<^verbatim>\<open>Number.parseInt(digits, 10)\<close> on a non-empty string of digits.\<close>

definition digit_value :: "char \<Rightarrow> nat" where
  "digit_value c = of_char c - 48"

definition decimal :: "string \<Rightarrow> nat" where
  "decimal ds = foldl (\<lambda>n c. 10 * n + digit_value c) 0 ds"

definition parseInt :: "string \<Rightarrow> js_number" where
  "parseInt ds = (if decimal ds \<le> 2 ^ 53 then Integer (decimal ds) else Rounded)"

text \<open>The inner loop: does the summary contain one of the exclude strings?\<close>

fun matched_exclude :: "string \<Rightarrow> string list \<Rightarrow> bool" where
  "matched_exclude s [] = False"
| "matched_exclude s (excludeMergeBranch # rest) =
     (if includes_str s excludeMergeBranch then True else matched_exclude s rest)"

text \<open>
  The outer loop, with \<^verbatim>\<open>filteredCommits\<close> as accumulator. \<^verbatim>\<open>excludeMergeBranches\<close> is
  \<^verbatim>\<open>None\<close> when the caller passes \<^verbatim>\<open>undefined\<close> or \<^verbatim>\<open>null\<close>, which the guard
  \<^verbatim>\<open>if(excludeMergeBranches)\<close> skips; an empty array passes the guard. The commit object
  is updated in place and then pushed, so the output holds the commit with its
  \<^verbatim>\<open>prNumber\<close> set.
\<close>

fun filterCommits_loop ::
  "CommitInfo list \<Rightarrow> string list option \<Rightarrow> CommitInfo list \<Rightarrow> CommitInfo list" where
  "filterCommits_loop [] excludeMergeBranches filteredCommits = filteredCommits"
| "filterCommits_loop (commit # commits) excludeMergeBranches filteredCommits =
     (if (case excludeMergeBranches of
            None \<Rightarrow> False
          | Some excl \<Rightarrow> matched_exclude (summary commit) excl)
      then filterCommits_loop commits excludeMergeBranches filteredCommits
      else case match_prRegex (summary commit) of
             None \<Rightarrow> filterCommits_loop commits excludeMergeBranches filteredCommits
           | Some digits \<Rightarrow>
               filterCommits_loop commits excludeMergeBranches
                 (filteredCommits @ [commit\<lparr>prNumber := Some (parseInt digits)\<rparr>]))"

definition filterCommits :: "CommitInfo list \<Rightarrow> string list option \<Rightarrow> CommitInfo list" where
  "filterCommits commits excludeMergeBranches = filterCommits_loop commits excludeMergeBranches []"

section \<open>Notions used to state the properties\<close>

text \<open>
  The epoch milliseconds of a pull request's merge moment (0 for the invalid moment, which
  the statements below exclude wherever they speak of an order).
\<close>

definition timeOf :: "PullRequestInfo \<Rightarrow> int" where
  "timeOf p = (case mergedAt p of Moment t \<Rightarrow> t | Invalid \<Rightarrow> 0)"

text \<open>
  The merged entries of a run of pages, in page order, as the objects the fetcher builds
  from them: what \<^verbatim>\<open>mergedPRs\<close> holds once these pages have been accumulated.
\<close>

definition mergedInfos :: "api_pull list list \<Rightarrow> PullRequestInfo list" where
  "mergedInfos pages = map toPullRequestInfo (filter (\<lambda>p. merged_at p \<noteq> None) (concat pages))"

text \<open>
  The first half of the loop's stop test, on a page: its first entry is merged, and
  \<^verbatim>\<open>fromDate\<close> is after that merge.
\<close>

definition firstMergedBefore :: "moment \<Rightarrow> api_pull list \<Rightarrow> bool" where
  "firstMergedBefore fromDate page =
     (case page of
        [] \<Rightarrow> False
      | firstPR # _ \<Rightarrow> merged_at firstPR \<noteq> None \<and> isAfter fromDate (moment_of (merged_at firstPR)))"

text \<open>
  The whole stop test at page \<open>j\<close> (counted from 0) of a run of pages, when \<open>before\<close>
  pull requests had been accumulated ahead of the run: the first entry of the page was
  merged before \<^verbatim>\<open>fromDate\<close>, or the count has reached \<^verbatim>\<open>maxPullRequests\<close> once the
  page is accumulated.
\<close>

definition stopsAt :: "moment \<Rightarrow> int \<Rightarrow> nat \<Rightarrow> api_pull list list \<Rightarrow> nat \<Rightarrow> bool" where
  "stopsAt fromDate maxPullRequests before pages j =
     (firstMergedBefore fromDate (pages ! j)
      \<or> maxPullRequests \<le> int (before + length (mergedInfos (take (Suc j) pages))))"



text \<open>
  What one round of the loop of \<^verbatim>\<open>filterCommits\<close> contributes for a commit: nothing, or
  the commit with its number set.
\<close>

definition retained :: "string list option \<Rightarrow> CommitInfo \<Rightarrow> CommitInfo option" where
  "retained excl c =
     (if (case excl of None \<Rightarrow> False | Some es \<Rightarrow> matched_exclude (summary c) es) then None
      else map_option (\<lambda>ds. c\<lparr>prNumber := Some (parseInt ds)\<rparr>) (match_prRegex (summary c)))"

section \<open>Example inputs\<close>

definition example_pull :: "nat \<Rightarrow> int option \<Rightarrow> api_pull" where
  "example_pull n t =
     \<lparr> pr_number = n, pr_title = ''Change'', html_url = ''https://example.org/pull'',
       merged_at = t, user = \<lparr> login = ''dev'' \<rparr>,
       base = \<lparr> repo = \<lparr> full_name = ''org/project'' \<rparr> \<rparr>,
       pr_labels = [\<lparr> name = ''bug'' \<rparr>], pr_body = '''' \<rparr>"

definition example_octokit :: "error + api_pull \<Rightarrow> (error + api_pull list) list \<Rightarrow> Octokit" where
  "example_octokit answer responses =
     \<lparr> pulls_get = (\<lambda>owner repository pullNumber. answer),
       pulls_list = (\<lambda>owner repository. responses) \<rparr>"

definition not_found :: "error + api_pull" where
  "not_found = Inl (RequestError 404 ''Not Found'')"




definition three_infos :: "PullRequestInfo list" where
  "three_infos = map toPullRequestInfo
     [example_pull 1 (Some 30), example_pull 2 (Some 10), example_pull 3 (Some 20)]"

definition three_pages :: "api_pull list list" where
  "three_pages =
     [[example_pull 6 (Some 600), example_pull 5 (Some 500)],
      [example_pull 4 (Some 400), example_pull 3 (Some 300)],
      [example_pull 2 (Some 200), example_pull 1 (Some 100)]]"

definition stale_tail_pages :: "api_pull list list" where
  "stale_tail_pages =
     [[example_pull 2 (Some 500), example_pull 1 (Some 50)],
      [example_pull 3 (Some 400)]]"

definition mixed_page :: "api_pull list" where
  "mixed_page = [example_pull 1 (Some 300), example_pull 2 None, example_pull 3 (Some 200)]"

definition example_commit :: "string \<Rightarrow> string \<Rightarrow> CommitInfo" where
  "example_commit h s = \<lparr> sha = h, summary = s, prNumber = None, commit_author = ''dev'' \<rparr>"

definition example_commits :: "CommitInfo list" where
  "example_commits =
     [example_commit ''a1'' ''Merge pull request #12 from org/release-1.0'',
      example_commit ''b2'' ''Fix typo in README'',
      example_commit ''c3'' ''Revert: Merge pull request #x, Merge pull request #0734abc'',
      example_commit ''d4'' ''merge pull request #5 from org/feature'']"

section \<open>Sorting\<close>

text \<open>
  The model of \<^verbatim>\<open>Array.prototype.sort\<close> permutes its argument, and for a comparator that
  follows a key it is the library's stable insertion sort on that key.
\<close>

lemma set_array_insert: "set (array_insert cmp x ys) = insert x (set ys)"
  by (induction ys) auto

lemma mset_array_insert: "mset (array_insert cmp x ys) = add_mset x (mset ys)"
  by (induction ys) auto

lemma mset_array_sort: "mset (array_sort cmp xs) = mset xs"
  by (induction xs) (auto simp: mset_array_insert)

lemma set_array_sort: "set (array_sort cmp xs) = set xs"
  by (induction xs) (auto simp: set_array_insert)

lemma array_insert_insort_key:
  "\<forall>y\<in>set ys. (0 < cmp x y) = (f y < f x) \<Longrightarrow> array_insert cmp x ys = insort_key f x ys"
  by (induction ys) auto

lemma array_sort_sort_key:
  "\<forall>x\<in>set xs. \<forall>y\<in>set xs. (0 < cmp x y) = (f y < f x) \<Longrightarrow> array_sort cmp xs = sort_key f xs"
proof (induction xs)
  case Nil
  then show ?case by simp
next
  case (Cons x xs)
  then have "array_sort cmp xs = sort_key f xs" by simp
  moreover have "\<forall>y\<in>set (sort_key f xs). (0 < cmp x y) = (f y < f x)"
    using Cons.prems by simp
  ultimately show ?case by (simp add: array_insert_insort_key)
qed

text \<open>
  On valid moments both comparators follow the merge time: ascending by \<open>timeOf\<close>,
  descending by its negation.
\<close>

lemma compare_ascending_timeOf:
  "mergedAt a \<noteq> Invalid \<Longrightarrow> mergedAt b \<noteq> Invalid \<Longrightarrow>
   (0 < compare_ascending a b) = (timeOf b < timeOf a)"
  by (cases "mergedAt a"; cases "mergedAt b") (auto simp: compare_ascending_def timeOf_def)

lemma compare_descending_timeOf:
  "mergedAt a \<noteq> Invalid \<Longrightarrow> mergedAt b \<noteq> Invalid \<Longrightarrow>
   (0 < compare_descending a b) = (- timeOf b < - timeOf a)"
  by (cases "mergedAt a"; cases "mergedAt b") (auto simp: compare_descending_def timeOf_def)

lemma sort_ascending_sort_key:
  "\<forall>p\<in>set xs. mergedAt p \<noteq> Invalid \<Longrightarrow> sortPullRequests xs True = sort_key timeOf xs"
  by (simp add: sortPullRequests_def array_sort_sort_key compare_ascending_timeOf)

lemma sort_descending_sort_key:
  "\<forall>p\<in>set xs. mergedAt p \<noteq> Invalid \<Longrightarrow> sortPullRequests xs False = sort_key (\<lambda>p. - timeOf p) xs"
  by (simp add: sortPullRequests_def array_sort_sort_key compare_descending_timeOf)

lemma sorted_map_uminus_rev:
  "sorted (map (\<lambda>p. - f p) xs) = sorted (map (f :: 'a \<Rightarrow> int) (rev xs))"
  by (simp add: sorted_map sorted_wrt_rev)

lemma set_sortPullRequests: "set (sortPullRequests xs asc) = set xs"
  by (simp add: sortPullRequests_def set_array_sort)

lemma mset_sortPullRequests: "mset (sortPullRequests xs asc) = mset xs"
  by (simp add: sortPullRequests_def mset_array_sort)

lemma sorted_sortPullRequests:
  assumes "\<forall>p\<in>set xs. mergedAt p \<noteq> Invalid"
  shows "sorted (map timeOf (sortPullRequests xs True))"
  using assms by (simp add: sort_ascending_sort_key)

lemma inj_on_timeOf:
  assumes "\<forall>p\<in>set xs. mergedAt p \<noteq> Invalid" and "distinct (map mergedAt xs)"
  shows "inj_on timeOf (set xs)"
proof (rule inj_onI)
  fix a b assume a: "a \<in> set xs" and b: "b \<in> set xs" and eq: "timeOf a = timeOf b"
  from assms(1) a b obtain s t where "mergedAt a = Moment s" "mergedAt b = Moment t"
    by (metis moment.exhaust)
  with eq have "mergedAt a = mergedAt b" by (simp add: timeOf_def)
  moreover from assms(2) have "inj_on mergedAt (set xs)" by (simp add: distinct_map)
  ultimately show "a = b" using a b by (auto dest: inj_onD)
qed

text \<open>
  Claim C3. For every list of pull requests that all carry a merge timestamp, pairwise
  distinct, \<^verbatim>\<open>sortPullRequests(items, true)\<close> is a permutation of the list in which the
  merge times never decrease from one element to the next, and
  \<^verbatim>\<open>sortPullRequests(items, false)\<close> is that sequence reversed.
\<close>

theorem sortPullRequests_ordering:
  assumes valid: "\<forall>p\<in>set items. mergedAt p \<noteq> Invalid"
    and dist: "distinct (map mergedAt items)"
  shows "mset (sortPullRequests items True) = mset items
       \<and> sorted (map timeOf (sortPullRequests items True))
       \<and> sortPullRequests items False = rev (sortPullRequests items True)"
proof -
  let ?asc = "sortPullRequests items True"
  have asc: "?asc = sort_key timeOf items"
    using valid by (rule sort_ascending_sort_key)
  have desc: "sortPullRequests items False = sort_key (\<lambda>p. - timeOf p) items"
    using valid by (rule sort_descending_sort_key)
  have "mset items = mset (rev ?asc)"
    by (simp add: mset_sortPullRequests)
  moreover have "inj_on (\<lambda>p. - timeOf p) (set items)"
    using inj_on_timeOf[OF valid dist] by (auto simp: inj_on_def)
  moreover have "sorted (map (\<lambda>p. - timeOf p) (rev ?asc))"
    by (simp add: sorted_map_uminus_rev asc)
  ultimately have "sort_key (\<lambda>p. - timeOf p) items = rev ?asc"
    by (rule sort_key_inj_key_eq)
  with desc show ?thesis
    by (simp add: mset_sortPullRequests sorted_sortPullRequests[OF valid])
qed

text \<open>
  An instance: three pull requests merged at 30, 10 and 20 come out as numbers 2, 3, 1
  ascending and 1, 3, 2 descending.
\<close>

theorem sortPullRequests_ordering_witness:
  "distinct (map mergedAt three_infos)
   \<and> mset (sortPullRequests three_infos True) = mset three_infos
   \<and> sorted (map timeOf (sortPullRequests three_infos True))
   \<and> sortPullRequests three_infos False = rev (sortPullRequests three_infos True)
   \<and> map number (sortPullRequests three_infos True) = [2, 3, 1]
   \<and> map number (sortPullRequests three_infos False) = [1, 3, 2]"
proof -
  have valid: "\<forall>p\<in>set three_infos. mergedAt p \<noteq> Invalid"
    by (simp add: three_infos_def example_pull_def toPullRequestInfo_def sortPullRequests_def
        compare_ascending_def compare_descending_def)
  have dist: "distinct (map mergedAt three_infos)"
    by (simp add: three_infos_def example_pull_def toPullRequestInfo_def sortPullRequests_def
        compare_ascending_def compare_descending_def)
  have asc: "map number (sortPullRequests three_infos True) = [2, 3, 1]"
    by (simp add: three_infos_def example_pull_def toPullRequestInfo_def sortPullRequests_def
        compare_ascending_def compare_descending_def)
  have desc: "map number (sortPullRequests three_infos False) = [1, 3, 2]"
    by (simp add: three_infos_def example_pull_def toPullRequestInfo_def sortPullRequests_def
        compare_ascending_def compare_descending_def)
  from sortPullRequests_ordering[OF valid dist] dist asc desc show ?thesis by blast
qed

section \<open>The pagination loop\<close>

lemma mergedInfos_Nil: "mergedInfos [] = []"
  by (simp add: mergedInfos_def)

lemma mergedInfos_Cons:
  "mergedInfos (page # pages) =
     map toPullRequestInfo (filter (\<lambda>p. merged_at p \<noteq> None) page) @ mergedInfos pages"
  by (simp add: mergedInfos_def)

lemma stopsAt_0:
  "stopsAt f m c (page # pages) 0 =
     (firstMergedBefore f page
      \<or> m \<le> int (c + length (filter (\<lambda>p. merged_at p \<noteq> None) page)))"
  by (simp add: stopsAt_def mergedInfos_Cons mergedInfos_Nil)

lemma stopsAt_Suc:
  "stopsAt f m c (page # pages) (Suc j) =
     stopsAt f m (c + length (filter (\<lambda>p. merged_at p \<noteq> None) page)) pages j"
  by (simp add: stopsAt_def mergedInfos_Cons add.assoc)

text \<open>One round of the loop on a non-empty page: it stops, or it goes on to the next response.\<close>

lemma loop_step_stop:
  assumes "firstMergedBefore f (p # ps)
           \<or> m \<le> int (length acc + length (filter (\<lambda>p. merged_at p \<noteq> None) (p # ps)))"
  shows "\<exists>lg'. getBetweenDates_loop f m (Inr (p # ps) # rs) acc n lg =
           (Inr (sortPullRequests (acc @ mergedInfos [p # ps]) True), Suc n, lg')"
  using assms by (auto simp: firstMergedBefore_def mergedInfos_def Let_def)

lemma loop_step_continue:
  assumes "\<not> (firstMergedBefore f (p # ps)
           \<or> m \<le> int (length acc + length (filter (\<lambda>p. merged_at p \<noteq> None) (p # ps))))"
  shows "getBetweenDates_loop f m (Inr (p # ps) # rs) acc n lg =
           getBetweenDates_loop f m rs (acc @ mergedInfos [p # ps]) (Suc n) lg"
  using assms by (auto simp: firstMergedBefore_def mergedInfos_def Let_def)

text \<open>
  When every response is a non-empty page the loop returns: it has requested some \<open>k\<close>
  pages, returns the merged entries of exactly these, sorted, no page before the last
  requested one met the stop test, and if pages are left over the last requested one did.
\<close>

lemma loop_pages:
  assumes "\<forall>page\<in>set pages. page \<noteq> []"
  shows "\<exists>k lg'. k \<le> length pages
           \<and> getBetweenDates_loop f m (map Inr pages) acc n lg =
               (Inr (sortPullRequests (acc @ mergedInfos (take k pages)) True), n + k, lg')
           \<and> (\<forall>j. Suc j < k \<longrightarrow> \<not> stopsAt f m (length acc) pages j)
           \<and> (k < length pages \<longrightarrow> 0 < k \<and> stopsAt f m (length acc) pages (k - 1))
           \<and> (pages \<noteq> [] \<longrightarrow> 0 < k)"
  using assms
proof (induction pages arbitrary: acc n lg)
  case Nil
  then show ?case by (simp add: mergedInfos_Nil)
next
  case (Cons page pages)
  then obtain p ps where page: "page = p # ps" by (cases page) auto
  let ?c = "length (filter (\<lambda>p. merged_at p \<noteq> None) page)"
  show ?case
  proof (cases "stopsAt f m (length acc) (page # pages) 0")
    case True
    then obtain lg' where
      "getBetweenDates_loop f m (map Inr (page # pages)) acc n lg =
         (Inr (sortPullRequests (acc @ mergedInfos [page]) True), Suc n, lg')"
      using loop_step_stop[of f p ps m acc "map Inr pages" n lg] by (auto simp: page stopsAt_0)
    with True show ?thesis
      by (intro exI[of _ 1] exI[of _ lg']) simp
  next
    case False
    have step: "getBetweenDates_loop f m (map Inr (page # pages)) acc n lg =
        getBetweenDates_loop f m (map Inr pages) (acc @ mergedInfos [page]) (Suc n) lg"
      using False loop_step_continue[of f p ps m acc "map Inr pages" n lg]
      by (simp add: page stopsAt_0)
    have len: "length (acc @ mergedInfos [page]) = length acc + ?c"
      by (simp add: mergedInfos_Cons mergedInfos_Nil)
    from Cons.prems have "\<forall>page\<in>set pages. page \<noteq> []" by simp
    from Cons.IH[OF this, of "acc @ mergedInfos [page]" "Suc n" lg]
    obtain k lg' where k: "k \<le> length pages"
      and run: "getBetweenDates_loop f m (map Inr pages) (acc @ mergedInfos [page]) (Suc n) lg =
         (Inr (sortPullRequests ((acc @ mergedInfos [page]) @ mergedInfos (take k pages)) True),
          Suc n + k, lg')"
      and before: "\<forall>j. Suc j < k \<longrightarrow> \<not> stopsAt f m (length acc + ?c) pages j"
      and last: "k < length pages \<longrightarrow> 0 < k \<and> stopsAt f m (length acc + ?c) pages (k - 1)"
      unfolding len by blast
    have "\<forall>j. Suc j < Suc k \<longrightarrow> \<not> stopsAt f m (length acc) (page # pages) j"
    proof (intro allI impI)
      fix j assume "Suc j < Suc k"
      then show "\<not> stopsAt f m (length acc) (page # pages) j"
        using False before by (cases j) (simp_all add: stopsAt_Suc)
    qed
    moreover have "Suc k < length (page # pages) \<longrightarrow>
        0 < Suc k \<and> stopsAt f m (length acc) (page # pages) (Suc k - 1)"
    proof
      assume "Suc k < length (page # pages)"
      then have "0 < k \<and> stopsAt f m (length acc + ?c) pages (k - 1)" using last by simp
      then show "0 < Suc k \<and> stopsAt f m (length acc) (page # pages) (Suc k - 1)"
        by (cases k) (simp_all add: stopsAt_Suc)
    qed
    moreover have "getBetweenDates_loop f m (map Inr (page # pages)) acc n lg =
        (Inr (sortPullRequests (acc @ mergedInfos (take (Suc k) (page # pages))) True),
         n + Suc k, lg')"
      using step run by (simp add: mergedInfos_Cons mergedInfos_Nil)
    ultimately show ?thesis
      using k by (intro exI[of _ "Suc k"] exI[of _ lg']) simp
  qed
qed

lemma getBetweenDates_pages:
  assumes "pulls_list octokit owner repository = map Inr pages"
    and "\<forall>page\<in>set pages. page \<noteq> []"
  shows "\<exists>k lg. k \<le> length pages
           \<and> getBetweenDates octokit owner repository fromDate toDate m =
               (Inr (sortPullRequests (mergedInfos (take k pages)) True), k, lg)
           \<and> (\<forall>j. Suc j < k \<longrightarrow> \<not> stopsAt fromDate m 0 pages j)
           \<and> (k < length pages \<longrightarrow> 0 < k \<and> stopsAt fromDate m 0 pages (k - 1))
           \<and> (pages \<noteq> [] \<longrightarrow> 0 < k)"
  using loop_pages[OF assms(2), of fromDate m "[]" 0 "[]"]
  by (simp add: getBetweenDates_def assms(1))




text \<open>
  Whatever the responses, every element of a returned array is in the accumulator or was
  built from a merged entry of some page.
\<close>

lemma loop_origin:
  "getBetweenDates_loop f m rs acc n lg = (Inr r, k, lg') \<Longrightarrow>
   set r \<subseteq> set acc \<union>
     toPullRequestInfo ` {p. merged_at p \<noteq> None \<and> (\<exists>page. Inr page \<in> set rs \<and> p \<in> set page)}"
proof (induction f m rs acc n lg rule: getBetweenDates_loop.induct)
  case (1 f m acc n lg)
  then show ?case by (auto simp: set_sortPullRequests)
next
  case (2 f m e rs acc n lg)
  then show ?case by simp
next
  case (3 f m prs rs acc n lg)
  show ?case
  proof (cases prs)
    case Nil
    with 3 show ?thesis by simp
  next
    case (Cons firstPR rest)
    let ?acc' = "acc @ mergedInfos [prs]"
    let ?stop = "firstMergedBefore f (firstPR # rest)
        \<or> m \<le> int (length acc + length (filter (\<lambda>p. merged_at p \<noteq> None) (firstPR # rest)))"
    have acc': "set ?acc' \<subseteq> set acc \<union> toPullRequestInfo `
        {p. merged_at p \<noteq> None \<and> (\<exists>page. Inr page \<in> set (Inr prs # rs) \<and> p \<in> set page)}"
      by (auto simp: mergedInfos_def)
    show ?thesis
    proof (cases ?stop)
      case True
      from loop_step_stop[OF True, of rs n lg] 3(2) Cons
      have "r = sortPullRequests ?acc' True" by auto
      then show ?thesis using acc' by (simp add: set_sortPullRequests)
    next
      case False
      from loop_step_continue[OF False, of rs n lg] 3(2) Cons
      have run: "getBetweenDates_loop f m rs ?acc' (Suc n) lg = (Inr r, k, lg')" by simp
      from False Cons have "\<not> ((merged_at firstPR \<noteq> None \<and> isAfter f (moment_of (merged_at firstPR)))
          \<or> m \<le> int (length (acc @ map toPullRequestInfo (filter (\<lambda>p. merged_at p \<noteq> None) prs))))"
        by (simp add: firstMergedBefore_def)
      from 3(1)[OF refl Cons this] run
      have "set r \<subseteq> set ?acc' \<union> toPullRequestInfo `
          {p. merged_at p \<noteq> None \<and> (\<exists>page. Inr page \<in> set rs \<and> p \<in> set page)}"
        by (simp add: mergedInfos_def)
      then show ?thesis using acc' by auto
    qed
  qed
qed

section \<open>Properties of getBetweenDates\<close>




text \<open>
  Claim C2, as the code has it. The stop test reads the first entry of the page,
  \<^verbatim>\<open>prs[0]\<close>, not the last one. When every response is a non-empty page, the number of
  pages requested is fixed by the test \<open>stopsAt\<close> (the first entry of the page is merged
  and was merged before \<^verbatim>\<open>fromDate\<close>, or the accumulated count has reached
  \<^verbatim>\<open>maxPullRequests\<close>): at least one page is requested if there is one, no page before
  the last requested one met the test (so the next page was requested), and when pages
  remain unrequested the last requested page met it.
\<close>

theorem getBetweenDates_pagination_stop:
  assumes list: "pulls_list octokit owner repository = map Inr pages"
    and nonempty: "\<forall>page\<in>set pages. page \<noteq> []"
  shows "pagesRequested (getBetweenDates octokit owner repository fromDate toDate maxPullRequests)
           \<le> length pages
       \<and> (pages \<noteq> [] \<longrightarrow>
            0 < pagesRequested (getBetweenDates octokit owner repository fromDate toDate maxPullRequests))
       \<and> (\<forall>j. Suc j < pagesRequested
              (getBetweenDates octokit owner repository fromDate toDate maxPullRequests) \<longrightarrow>
            \<not> stopsAt fromDate maxPullRequests 0 pages j)
       \<and> (pagesRequested (getBetweenDates octokit owner repository fromDate toDate maxPullRequests)
            < length pages \<longrightarrow>
            stopsAt fromDate maxPullRequests 0 pages
              (pagesRequested
                (getBetweenDates octokit owner repository fromDate toDate maxPullRequests) - 1))"
proof -
  from getBetweenDates_pages[OF list nonempty, of fromDate toDate maxPullRequests]
  obtain k lg where
    "getBetweenDates octokit owner repository fromDate toDate maxPullRequests =
       (Inr (sortPullRequests (mergedInfos (take k pages)) True), k, lg)"
    "k \<le> length pages" "\<forall>j. Suc j < k \<longrightarrow> \<not> stopsAt fromDate maxPullRequests 0 pages j"
    "k < length pages \<longrightarrow> 0 < k \<and> stopsAt fromDate maxPullRequests 0 pages (k - 1)"
    "pages \<noteq> [] \<longrightarrow> 0 < k"
    by blast
  then show ?thesis by (simp add: pagesRequested_def)
qed

text \<open>
  An instance: on the three pages above with \<^verbatim>\<open>maxPullRequests = 3\<close>, the first page does
  not meet the test, the second does, and two pages are requested.
\<close>

theorem getBetweenDates_pagination_stop_witness:
  "pulls_list (example_octokit not_found (map Inr three_pages)) ''org'' ''project'' = map Inr three_pages
   \<and> pagesRequested (getBetweenDates (example_octokit not_found (map Inr three_pages))
        ''org'' ''project'' (Moment 0) (Moment 5000) 3) = 2
   \<and> \<not> stopsAt (Moment 0) 3 0 three_pages 0
   \<and> stopsAt (Moment 0) 3 0 three_pages 1"
proof -
  let ?oct = "example_octokit not_found (map Inr three_pages)"
  let ?k = "pagesRequested (getBetweenDates ?oct ''org'' ''project'' (Moment 0) (Moment 5000) 3)"
  have list: "pulls_list ?oct ''org'' ''project'' = map Inr three_pages"
    by (simp add: example_octokit_def)
  have nonempty: "\<forall>page\<in>set three_pages. page \<noteq> []"
    by (simp add: three_pages_def)
  have k: "?k = 2"
    by (simp add: three_pages_def example_octokit_def example_pull_def toPullRequestInfo_def
        sortPullRequests_def compare_ascending_def getBetweenDates_def
        pagesRequested_def)
  have len: "length three_pages = 3"
    by (simp add: three_pages_def)
  from getBetweenDates_pagination_stop[OF list nonempty, of "Moment 0" "Moment 5000" 3]
  have "(\<forall>j. Suc j < ?k \<longrightarrow> \<not> stopsAt (Moment 0) 3 0 three_pages j)"
    and "?k < length three_pages \<longrightarrow> stopsAt (Moment 0) 3 0 three_pages (?k - 1)"
    by blast+
  then have "\<not> stopsAt (Moment 0) 3 0 three_pages 0" and "stopsAt (Moment 0) 3 0 three_pages 1"
    unfolding k len by simp_all
  with list k show ?thesis by blast
qed

text \<open>
  The claim with "the last item of the page" fails: the last entry of the first page
  was merged at 50, before \<^verbatim>\<open>fromDate = 100\<close>, its first entry at 500, the count 2 is
  below \<^verbatim>\<open>maxPullRequests = 10\<close>, and yet the second page is requested.
\<close>

theorem getBetweenDates_pagination_stop_counterexample:
  "isBefore (moment_of (merged_at (last (stale_tail_pages ! 0)))) (Moment 100)
   \<and> pagesRequested (getBetweenDates (example_octokit not_found (map Inr stale_tail_pages))
        ''org'' ''project'' (Moment 100) (Moment 5000) 10) = 2"
  by (simp add: stale_tail_pages_def example_octokit_def example_pull_def toPullRequestInfo_def
        sortPullRequests_def compare_ascending_def getBetweenDates_def
        pagesRequested_def)

text \<open>
  Claim C6. Every element of the array \<^verbatim>\<open>getBetweenDates\<close> returns carries a valid merge
  moment and was built from an entry of some page whose \<^verbatim>\<open>merged_at\<close> is not
  \<^verbatim>\<open>null\<close>: unmerged entries never reach the accumulator.
\<close>

theorem getBetweenDates_only_merged:
  assumes "returned (getBetweenDates octokit owner repository fromDate toDate maxPullRequests) = Inr r"
    and "info \<in> set r"
  shows "mergedAt info \<noteq> Invalid
       \<and> (\<exists>page p. Inr page \<in> set (pulls_list octokit owner repository) \<and> p \<in> set page
            \<and> merged_at p \<noteq> None \<and> info = toPullRequestInfo p)"
proof -
  obtain k lg where "getBetweenDates_loop fromDate maxPullRequests
      (pulls_list octokit owner repository) [] 0 [] = (Inr r, k, lg)"
    using assms(1) by (cases "getBetweenDates octokit owner repository fromDate toDate maxPullRequests")
      (auto simp: returned_def getBetweenDates_def)
  from loop_origin[OF this] assms(2)
  obtain p page where "Inr page \<in> set (pulls_list octokit owner repository)" "p \<in> set page"
    "merged_at p \<noteq> None" "info = toPullRequestInfo p" by auto
  then show ?thesis by (auto simp: toPullRequestInfo_def)
qed

text \<open>
  An instance: of a page with a merged, an unmerged and another merged entry, the two
  merged ones are returned.
\<close>

theorem getBetweenDates_only_merged_witness:
  "returned (getBetweenDates (example_octokit not_found [Inr mixed_page]) ''org'' ''project''
      (Moment 0) (Moment 5000) 10)
     = Inr [toPullRequestInfo (example_pull 3 (Some 200)), toPullRequestInfo (example_pull 1 (Some 300))]
   \<and> mergedAt (toPullRequestInfo (example_pull 3 (Some 200))) \<noteq> Invalid
   \<and> (\<exists>page p. Inr page \<in> set (pulls_list (example_octokit not_found [Inr mixed_page]) ''org'' ''project'')
         \<and> p \<in> set page \<and> merged_at p \<noteq> None
         \<and> toPullRequestInfo (example_pull 3 (Some 200)) = toPullRequestInfo p)"
proof -
  have ret: "returned (getBetweenDates (example_octokit not_found [Inr mixed_page]) ''org'' ''project''
      (Moment 0) (Moment 5000) 10)
     = Inr [toPullRequestInfo (example_pull 3 (Some 200)), toPullRequestInfo (example_pull 1 (Some 300))]"
    by (simp add: mixed_page_def example_octokit_def example_pull_def toPullRequestInfo_def
        sortPullRequests_def compare_ascending_def getBetweenDates_def
        returned_def)
  have mem: "toPullRequestInfo (example_pull 3 (Some 200))
      \<in> set [toPullRequestInfo (example_pull 3 (Some 200)), toPullRequestInfo (example_pull 1 (Some 300))]"
    by simp
  from getBetweenDates_only_merged[OF ret mem] ret show ?thesis by blast
qed

text \<open>
  Claim C8. The outcome of \<^verbatim>\<open>getBetweenDates\<close> (returned value, pages requested and log)
  does not depend on \<^verbatim>\<open>toDate\<close>: two calls that differ only there are equal.
\<close>

theorem getBetweenDates_ignores_toDate:
  "getBetweenDates octokit owner repository fromDate toDate maxPullRequests =
   getBetweenDates octokit owner repository fromDate toDate' maxPullRequests"
  by (simp add: getBetweenDates_def)

text \<open>
  Claim C9. \<^verbatim>\<open>prs[0]\<close> is read without a guard. When every response is a non-empty page
  the call returns an array; when the first page is empty, reading \<^verbatim>\<open>merged_at\<close> of
  \<^verbatim>\<open>undefined\<close> throws and the call fails with that \<^verbatim>\<open>TypeError\<close>.
\<close>

theorem getBetweenDates_empty_page:
  "((\<forall>response\<in>set (pulls_list octokit owner repository). \<exists>page. response = Inr page \<and> page \<noteq> [])
      \<longrightarrow> (\<exists>r. returned (getBetweenDates octokit owner repository fromDate toDate maxPullRequests) = Inr r))
   \<and> (pulls_list octokit owner repository = Inr [] # rest
      \<longrightarrow> returned (getBetweenDates octokit owner repository fromDate toDate maxPullRequests) =
            Inl (TypeError ''Cannot read properties of undefined (reading 'merged_at')''))"
proof (intro conjI impI)
  let ?rs = "pulls_list octokit owner repository"
  assume all: "\<forall>response\<in>set ?rs. \<exists>page. response = Inr page \<and> page \<noteq> []"
  let ?pages = "map projr ?rs"
  have "map (Inr \<circ> projr) ?rs = ?rs"
    by (rule map_idI) (use all in auto)
  then have "?rs = map Inr ?pages" by simp
  moreover have "\<forall>page\<in>set ?pages. page \<noteq> []"
    using all by auto
  ultimately obtain k lg where
    "getBetweenDates octokit owner repository fromDate toDate maxPullRequests =
       (Inr (sortPullRequests (mergedInfos (take k ?pages)) True), k, lg)"
    using getBetweenDates_pages[of octokit owner repository ?pages fromDate toDate maxPullRequests]
    by blast
  then show "\<exists>r. returned (getBetweenDates octokit owner repository fromDate toDate maxPullRequests) = Inr r"
    by (simp add: returned_def)
next
  assume "pulls_list octokit owner repository = Inr [] # rest"
  then show "returned (getBetweenDates octokit owner repository fromDate toDate maxPullRequests) =
            Inl (TypeError ''Cannot read properties of undefined (reading 'merged_at')'')"
    by (simp add: returned_def getBetweenDates_def)
qed

text \<open>
  Instances: a repository whose only page is empty makes the call throw; the page of
  three entries above makes it return.
\<close>

theorem getBetweenDates_empty_page_witness:
  "returned (getBetweenDates (example_octokit not_found [Inr []]) ''org'' ''project''
      (Moment 0) (Moment 5000) 10)
     = Inl (TypeError ''Cannot read properties of undefined (reading 'merged_at')'')
   \<and> (\<exists>r. returned (getBetweenDates (example_octokit not_found [Inr mixed_page]) ''org'' ''project''
      (Moment 0) (Moment 5000) 10) = Inr r)"
proof -
  have e: "pulls_list (example_octokit not_found [Inr []]) ''org'' ''project'' = Inr [] # []"
    by (simp add: example_octokit_def)
  have n: "\<forall>response\<in>set (pulls_list (example_octokit not_found [Inr mixed_page]) ''org'' ''project'').
             \<exists>page. response = Inr page \<and> page \<noteq> []"
    by (simp add: example_octokit_def mixed_page_def)
  from getBetweenDates_empty_page[of "example_octokit not_found [Inr []]" "''org''" "''project''"
        "Moment 0" "Moment 5000" 10 "[]"] e
    getBetweenDates_empty_page[of "example_octokit not_found [Inr mixed_page]" "''org''" "''project''"
        "Moment 0" "Moment 5000" 10 "[]"] n
  show ?thesis by blast
qed

section \<open>Properties of getSingle\<close>

text \<open>
  Claim C7. When the platform answers the request for a pull request with "not found"
  (a request error of status 404), \<^verbatim>\<open>getSingle\<close> returns \<^verbatim>\<open>null\<close> to its caller, throws
  nothing, and logs one warning that names the pull request and carries the error's
  message.
\<close>

theorem getSingle_not_found:
  assumes "pulls_get octokit owner repository pullNumber = Inl (RequestError 404 msg)"
  shows "getSingle octokit owner repository pullNumber =
           (Inr None,
            [Warning (''Cannot find PR '' @ owner @ ''/'' @ repository @ ''#'' @ show_nat pullNumber
                      @ '' - '' @ msg)])"
  using assms by (simp add: getSingle_def getSingle_try_def)

text \<open>An instance: pull request 7 of \<^verbatim>\<open>org/project\<close> is not found.\<close>

theorem getSingle_not_found_witness:
  "pulls_get (example_octokit not_found []) ''org'' ''project'' 7 = Inl (RequestError 404 ''Not Found'')
   \<and> getSingle (example_octokit not_found []) ''org'' ''project'' 7 =
       (Inr None, [Warning ''Cannot find PR org/project#7 - Not Found''])"
proof -
  have h: "pulls_get (example_octokit not_found []) ''org'' ''project'' 7
             = Inl (RequestError 404 ''Not Found'')"
    by (simp add: example_octokit_def not_found_def)
  from getSingle_not_found[OF h] h show ?thesis
    by (simp add: show_nat.simps)
qed



section \<open>Properties of filterCommits\<close>

text \<open>
  \<^verbatim>\<open>includes\<close> is the contiguous-sublist relation (\<open>sublist e s\<close>: \<open>s = pre @ e @ post\<close> for
  some \<open>pre\<close> and \<open>post\<close>), and the inner loop finds out whether some exclude string
  occurs in the summary.
\<close>

lemma includes_str_sublist: "includes_str s e = sublist e s"
  by (induction s) (auto simp: sublist_Cons_right)

lemma matched_exclude_iff: "matched_exclude s es = (\<exists>e\<in>set es. sublist e s)"
  by (induction es) (auto simp: includes_str_sublist)







text \<open>The loop appends, in order, what each commit contributes.\<close>

lemma filterCommits_loop_step:
  "filterCommits_loop (c # cs) excl acc =
     filterCommits_loop cs excl (case retained excl c of None \<Rightarrow> acc | Some c' \<Rightarrow> acc @ [c'])"
  by (simp add: retained_def split: option.splits)

lemma filterCommits_loop_map_filter:
  "filterCommits_loop cs excl acc = acc @ List.map_filter (retained excl) cs"
proof (induction cs arbitrary: acc)
  case Nil
  then show ?case by (simp add: map_filter_simps)
next
  case (Cons c cs)
  show ?case
    unfolding filterCommits_loop_step Cons.IH
    by (cases "retained excl c") (simp_all add: map_filter_simps)
qed

lemma in_filterCommits:
  "c' \<in> set (filterCommits cs excl) = (\<exists>c\<in>set cs. retained excl c = Some c')"
  by (simp add: filterCommits_def filterCommits_loop_map_filter map_filter_def) force

lemma retained_exclude_first:
  "retained (Some es) c = (if matched_exclude (summary c) es then None else retained None c)"
  by (simp add: retained_def)

lemma filterCommits_exclude_first:
  "filterCommits cs (Some es) =
     filterCommits (filter (\<lambda>c. \<not> matched_exclude (summary c) es) cs) None"
  unfolding filterCommits_def filterCommits_loop_map_filter
  by (induction cs) (simp_all add: map_filter_simps retained_exclude_first split: option.splits)

lemma retained_Some:
  "retained excl c = Some c' \<Longrightarrow>
     \<not> (case excl of None \<Rightarrow> False | Some es \<Rightarrow> matched_exclude (summary c) es)
     \<and> (\<exists>ds. match_prRegex (summary c) = Some ds \<and> c' = c\<lparr>prNumber := Some (parseInt ds)\<rparr>)"
  by (auto simp: retained_def split: if_splits)

text \<open>
  Claim C4. For every list of commits and every list of exclude strings, no commit of the
  output has a summary in which an exclude string occurs; a commit whose summary contains
  one is absent from the output whatever number it would carry, also when its summary
  matches the merge pattern; and the output is the one obtained by first dropping the
  excluded commits and then matching the pattern on the rest.
\<close>

theorem filterCommits_exclusion_precedence:
  "(\<forall>c'\<in>set (filterCommits commits (Some excl)). \<forall>e\<in>set excl. \<not> sublist e (summary c'))
   \<and> (c \<in> set commits \<and> e \<in> set excl \<and> sublist e (summary c) \<longrightarrow>
        c\<lparr>prNumber := n\<rparr> \<notin> set (filterCommits commits (Some excl)))
   \<and> filterCommits commits (Some excl) =
        filterCommits (filter (\<lambda>c. \<not> (\<exists>e\<in>set excl. sublist e (summary c))) commits) None"
proof -
  have out: "\<forall>e\<in>set excl. \<not> sublist e (summary c')"
    if "c' \<in> set (filterCommits commits (Some excl))" for c'
  proof -
    from that obtain c0 where "c0 \<in> set commits" "retained (Some excl) c0 = Some c'"
      by (auto simp: in_filterCommits)
    with retained_Some[of "Some excl" c0 c'] have "\<not> matched_exclude (summary c0) excl"
      and "summary c' = summary c0" by auto
    then show ?thesis by (simp add: matched_exclude_iff)
  qed
  have "c\<lparr>prNumber := n\<rparr> \<notin> set (filterCommits commits (Some excl))"
    if "e \<in> set excl" "sublist e (summary c)"
    using out[of "c\<lparr>prNumber := n\<rparr>"] that by auto
  moreover have "filterCommits commits (Some excl) =
        filterCommits (filter (\<lambda>c. \<not> (\<exists>e\<in>set excl. sublist e (summary c))) commits) None"
    by (simp add: filterCommits_exclude_first matched_exclude_iff)
  ultimately show ?thesis using out by blast
qed

text \<open>
  An instance: the commit \<^verbatim>\<open>Merge pull request #12 from org/release-1.0\<close> matches the
  pattern and contains the exclude string \<^verbatim>\<open>release-\<close>; it is in the output without
  exclude strings and absent with them.
\<close>

theorem filterCommits_exclusion_precedence_witness:
  "example_commit ''a1'' ''Merge pull request #12 from org/release-1.0'' \<in> set example_commits
   \<and> sublist ''release-'' ''Merge pull request #12 from org/release-1.0''
   \<and> match_prRegex ''Merge pull request #12 from org/release-1.0'' = Some ''12''
   \<and> (example_commit ''a1'' ''Merge pull request #12 from org/release-1.0'')\<lparr>prNumber := Some (Integer 12)\<rparr>
        \<notin> set (filterCommits example_commits (Some [''hotfix/'', ''release-'']))
   \<and> map sha (filterCommits example_commits (Some [''hotfix/'', ''release-''])) = [''c3'']
   \<and> map sha (filterCommits example_commits None) = [''a1'', ''c3'']"
proof -
  let ?c = "example_commit ''a1'' ''Merge pull request #12 from org/release-1.0''"
  have m: "?c \<in> set example_commits"
    by (simp add: example_commits_def)
  have e: "''release-'' \<in> set [''hotfix/'', ''release-'']" by simp
  have s: "sublist ''release-'' (summary ?c)"
    by (simp add: includes_str_sublist[symmetric] example_commit_def)
  have r: "match_prRegex ''Merge pull request #12 from org/release-1.0'' = Some ''12''"
    by (simp add: prRegex_at_def prRegex_literal_def isDigit_def)
  have o1: "map sha (filterCommits example_commits (Some [''hotfix/'', ''release-''])) = [''c3'']"
    by (simp add: filterCommits_def example_commits_def example_commit_def prRegex_at_def
        prRegex_literal_def isDigit_def)
  have o2: "map sha (filterCommits example_commits None) = [''a1'', ''c3'']"
    by (simp add: filterCommits_def example_commits_def example_commit_def prRegex_at_def
        prRegex_literal_def isDigit_def)
  from filterCommits_exclusion_precedence[of example_commits "[''hotfix/'', ''release-'']" ?c
      "''release-''" "Some (Integer 12)"] m e s
  have "?c\<lparr>prNumber := Some (Integer 12)\<rparr>
          \<notin> set (filterCommits example_commits (Some [''hotfix/'', ''release-'']))"
    by blast
  with m s r o1 o2 show ?thesis by (simp add: example_commit_def)
qed



end
